theory Spec2Isabelle
  imports Main "HOL-Library.Multiset"
begin

section \<open>Values, records and exceptions\<close>

text \<open>
  A row of the CSV file is a Python dict from column names to cell values. A cell read by
  \<^verbatim>\<open>csv.DictReader\<close> is a string, or \<^verbatim>\<open>None\<close> when the row is shorter than the header.
  The same type serves for the JSON object of an update request (string or null values).
\<close>

datatype pyval = PStr string | PNone

type_synonym pydict = "string \<rightharpoonup> pyval"

datatype pyexn = KeyError string | ValueError string | TypeError | OSError

text \<open>
  The Python built-ins used by \<^verbatim>\<open>student_average\<close> are parameters of the model:
  \<^verbatim>\<open>float(s)\<close> on a string (\<open>None\<close> stands for its \<^verbatim>\<open>ValueError\<close>), the float expression
  \<^verbatim>\<open>round((english + maths + science) / 3, 2)\<close>, the \<^verbatim>\<open>repr\<close> of a dict and the \<^verbatim>\<open>str\<close> of an
  exception, both used by the f-string of the error message.
\<close>

record ('f, 'a) python =
  pyfloat :: "string \<Rightarrow> 'f option"
  round_mean :: "'f \<Rightarrow> 'f \<Rightarrow> 'f \<Rightarrow> 'a"
  repr_dict :: "pydict \<Rightarrow> string"
  str_exn :: "pyexn \<Rightarrow> string"

section \<open>Configuration\<close>

text \<open>The entries of \<^verbatim>\<open>config.json\<close> read at module level, each with its default.\<close>

record config =
  file_path :: "string option"
  thread_size :: "int option"
  queue_size :: "int option"

definition csv_file :: "config \<Rightarrow> string" where
  "csv_file cfg = (case file_path cfg of None \<Rightarrow> ''data.csv'' | Some p \<Rightarrow> p)"

text \<open>The module-level \<^verbatim>\<open>num_threads = config['app'].get('thread_size', 10)\<close>.\<close>

definition num_threads :: "config \<Rightarrow> int" where
  "num_threads cfg = (case thread_size cfg of None \<Rightarrow> 10 | Some n \<Rightarrow> n)"

section \<open>Storage: \<^verbatim>\<open>read_csv\<close> and \<^verbatim>\<open>write_csv\<close>\<close>

text \<open>
  The state of the backing file: absent, present but impossible to open, or holding the
  rows that \<^verbatim>\<open>list(csv.DictReader(file))\<close> yields.
\<close>

datatype storage = Missing | Inaccessible | Stored "pydict list"

text \<open>
  What \<^verbatim>\<open>read_csv\<close> returns: the list of rows, or, in the \<^verbatim>\<open>except FileNotFoundError\<close>
  branch, the response object built by \<^verbatim>\<open>jsonify\<close>. Any other \<^verbatim>\<open>OSError\<close> propagates.
\<close>

datatype read_value = Rows "pydict list" | ErrorJson

definition read_csv :: "storage \<Rightarrow> pyexn + read_value" where
  "read_csv st =
     (case st of
        Missing \<Rightarrow> Inr ErrorJson
      | Inaccessible \<Rightarrow> Inl OSError
      | Stored rows \<Rightarrow> Inr (Rows rows))"

definition fieldnames :: "string list" where
  "fieldnames = [''Rollno'', ''name'', ''english'', ''maths'', ''science'']"

text \<open>
  \<^verbatim>\<open>csv.DictWriter\<close> with its defaults: a row with a key outside \<open>fieldnames\<close> raises
  \<^verbatim>\<open>ValueError\<close>, a missing key is written as the empty string, and so is \<^verbatim>\<open>None\<close>. The file
  is truncated on opening and rows are written one by one, so a failing row leaves the rows
  before it in the file.
\<close>

definition cell :: "pyval option \<Rightarrow> string" where
  "cell v = (case v of Some (PStr s) \<Rightarrow> s | _ \<Rightarrow> '''')"

definition csv_row :: "pydict \<Rightarrow> pydict" where
  "csv_row row = (\<lambda>k. if k \<in> set fieldnames then Some (PStr (cell (row k))) else None)"

definition writable :: "pydict \<Rightarrow> bool" where
  "writable row \<longleftrightarrow> dom row \<subseteq> set fieldnames"

definition write_csv :: "pydict list \<Rightarrow> storage \<Rightarrow> pyexn option \<times> storage" where
  "write_csv rows st =
     (case st of
        Inaccessible \<Rightarrow> (Some OSError, Inaccessible)
      | _ \<Rightarrow>
          (if list_all writable rows then None
           else Some (ValueError ''dict contains fields not in fieldnames''),
           Stored (map csv_row (takeWhile writable rows))))"

section \<open>Record store: \<^verbatim>\<open>update_record\<close> and \<^verbatim>\<open>delete_record\<close>\<close>

text \<open>A JSON reply \<^verbatim>\<open>{"message": ...}\<close> or \<^verbatim>\<open>{"error": ...}\<close> with its status code.\<close>

datatype reply = Message nat string | Error nat string

text \<open>The body of the PUT request as \<^verbatim>\<open>request.json\<close> gives it: a JSON object or not.\<close>

datatype payload = JObject pydict | NotObject

definition valid_fields :: "string list" where
  "valid_fields = [''Rollno'', ''name'', ''english'', ''maths'', ''science'']"

text \<open>
  The loop over \<open>records\<close> of \<^verbatim>\<open>update_record\<close>: the first record whose \<open>Rollno\<close> equals
  \<open>rollno\<close> is updated in place and the loop breaks. The result is the flag \<open>updated\<close>
  and the list after the mutation.
\<close>

fun update_loop :: "string \<Rightarrow> pydict \<Rightarrow> pydict list \<Rightarrow> pyexn + bool \<times> pydict list" where
  "update_loop rollno filtered_data [] = Inr (False, [])"
| "update_loop rollno filtered_data (record # rest) =
     (case record ''Rollno'' of
        None \<Rightarrow> Inl (KeyError ''Rollno'')
      | Some v \<Rightarrow>
          if v = PStr rollno then Inr (True, (record ++ filtered_data) # rest)
          else (case update_loop rollno filtered_data rest of
                  Inl e \<Rightarrow> Inl e
                | Inr (updated, rest') \<Rightarrow> Inr (updated, record # rest')))"

definition update_record :: "string \<Rightarrow> payload \<Rightarrow> storage \<Rightarrow> reply \<times> storage" where
  "update_record rollno data st =
     (case read_csv st of
        Inl e \<Rightarrow> (Error 500 ''An error occurred'', st)
      | Inr ErrorJson \<Rightarrow> (Error 500 ''An error occurred'', st)
      | Inr (Rows records) \<Rightarrow>
          (case data of
             NotObject \<Rightarrow> (Error 500 ''An error occurred'', st)
           | JObject d \<Rightarrow>
               (let filtered_data = d |` set valid_fields in
                case update_loop rollno filtered_data records of
                  Inl e \<Rightarrow> (Error 500 ''An error occurred'', st)
                | Inr (updated, records') \<Rightarrow>
                    if \<not> updated
                    then (Error 404 (''Record with Rollno '' @ rollno @ '' not found''), st)
                    else (case write_csv records' st of
                            (Some e, st') \<Rightarrow> (Error 500 ''An error occurred'', st')
                          | (None, st') \<Rightarrow>
                              (Message 200 (''Record with Rollno '' @ rollno @ '' updated successfully''),
                               st')))))"

text \<open>The list comprehension of \<^verbatim>\<open>delete_record\<close>.\<close>

fun new_records :: "string \<Rightarrow> pydict list \<Rightarrow> pyexn + pydict list" where
  "new_records rollno [] = Inr []"
| "new_records rollno (record # rest) =
     (case record ''Rollno'' of
        None \<Rightarrow> Inl (KeyError ''Rollno'')
      | Some v \<Rightarrow>
          (case new_records rollno rest of
             Inl e \<Rightarrow> Inl e
           | Inr keep \<Rightarrow> Inr (if v \<noteq> PStr rollno then record # keep else keep)))"

definition delete_record :: "string \<Rightarrow> storage \<Rightarrow> reply \<times> storage" where
  "delete_record rollno st =
     (case read_csv st of
        Inl e \<Rightarrow> (Error 500 ''An error occurred'', st)
      | Inr ErrorJson \<Rightarrow> (Error 500 ''An error occurred'', st)
      | Inr (Rows records) \<Rightarrow>
          (case new_records rollno records of
             Inl e \<Rightarrow> (Error 500 ''An error occurred'', st)
           | Inr kept \<Rightarrow>
               if kept = records then (Error 404 ''Record not found'', st)
               else (case write_csv kept st of
                       (Some e, st') \<Rightarrow> (Error 500 ''An error occurred'', st')
                     | (None, st') \<Rightarrow> (Message 200 ''Record deleted successfully'', st'))))"

section \<open>Aggregation: \<^verbatim>\<open>student_average\<close>\<close>

text \<open>The dict \<^verbatim>\<open>{'Rollno': ..., 'name': ..., 'average': ...}\<close> appended for one record.\<close>

datatype 'a derived = Derived (d_rollno: pyval) (d_name: pyval) (d_average: 'a)

text \<open>\<^verbatim>\<open>float(record[key])\<close>: a missing key, a \<^verbatim>\<open>None\<close> cell and a non-numeric string each raise.\<close>

definition float_field :: "('f, 'a) python \<Rightarrow> pydict \<Rightarrow> string \<Rightarrow> pyexn + 'f" where
  "float_field py record key =
     (case record key of
        None \<Rightarrow> Inl (KeyError key)
      | Some PNone \<Rightarrow> Inl TypeError
      | Some (PStr s) \<Rightarrow> (case pyfloat py s of None \<Rightarrow> Inl (ValueError s) | Some x \<Rightarrow> Inr x))"

definition subscript :: "pydict \<Rightarrow> string \<Rightarrow> pyexn + pyval" where
  "subscript record key = (case record key of None \<Rightarrow> Inl (KeyError key) | Some v \<Rightarrow> Inr v)"

text \<open>The body of the \<^verbatim>\<open>try\<close> block, in the order Python evaluates it.\<close>

definition record_average :: "('f, 'a) python \<Rightarrow> pydict \<Rightarrow> pyexn + 'a derived" where
  "record_average py record =
     (case float_field py record ''english'' of
        Inl e \<Rightarrow> Inl e
      | Inr english \<Rightarrow>
     (case float_field py record ''maths'' of
        Inl e \<Rightarrow> Inl e
      | Inr maths \<Rightarrow>
     (case float_field py record ''science'' of
        Inl e \<Rightarrow> Inl e
      | Inr science \<Rightarrow>
     (let average = round_mean py english maths science in
      case subscript record ''Rollno'' of
        Inl e \<Rightarrow> Inl e
      | Inr r \<Rightarrow>
     (case subscript record ''name'' of
        Inl e \<Rightarrow> Inl e
      | Inr n \<Rightarrow> Inr (Derived r n average))))))"

text \<open>The clause \<^verbatim>\<open>except (ValueError, KeyError)\<close>.\<close>

fun caught :: "pyexn \<Rightarrow> bool" where
  "caught (KeyError k) = True"
| "caught (ValueError s) = True"
| "caught e = False"

text \<open>\<^verbatim>\<open>student_average\<close> returns the list of averages, or the error message as a string.\<close>

datatype 'a returned = AverageList "'a derived list" | ErrorText string

fun average_loop ::
  "('f, 'a) python \<Rightarrow> 'a derived list \<Rightarrow> pydict list \<Rightarrow> pyexn + 'a returned" where
  "average_loop py averages [] = Inr (AverageList averages)"
| "average_loop py averages (record # rest) =
     (case record_average py record of
        Inr d \<Rightarrow> average_loop py (averages @ [d]) rest
      | Inl e \<Rightarrow>
          if caught e
          then Inr (ErrorText (''Error processing record '' @ repr_dict py record @ '': '' @ str_exn py e))
          else Inl e)"

definition student_average :: "('f, 'a) python \<Rightarrow> pydict list \<Rightarrow> pyexn + 'a returned" where
  "student_average py records = average_loop py [] records"

section \<open>Aggregation: the queue of chunks\<close>

text \<open>\<^verbatim>\<open>range(i, stop, step)\<close> for a positive step, and the slice \<^verbatim>\<open>xs[i:j]\<close>.\<close>

function py_range :: "nat \<Rightarrow> nat \<Rightarrow> nat \<Rightarrow> nat list" where
  "py_range i stop step = (if 0 < step \<and> i < stop then i # py_range (i + step) stop step else [])"
  by pat_completeness auto
termination
  by (relation "measure (\<lambda>(i, stop, step). stop - i)") auto

declare py_range.simps [simp del]

definition slice :: "'a list \<Rightarrow> nat \<Rightarrow> nat \<Rightarrow> 'a list" where
  "slice xs i j = take (j - i) (drop i xs)"

text \<open>\<^verbatim>\<open>chunk_size = max(len(records) // num_threads, 1)\<close>.\<close>

definition chunk_size :: "nat \<Rightarrow> 'a list \<Rightarrow> nat" where
  "chunk_size n records = max (length records div n) 1"

text \<open>The queue after the loop \<^verbatim>\<open>for i in range(0, len(records), chunk_size): q.put(...)\<close>.\<close>

definition enqueue_chunks :: "nat \<Rightarrow> 'a list \<Rightarrow> 'a list list" where
  "enqueue_chunks cs records =
     map (\<lambda>i. slice records i (i + cs)) (py_range 0 (length records) cs)"

section \<open>Aggregation: the worker threads\<close>

text \<open>
  An element of the shared list \<open>results\<close>. \<^verbatim>\<open>results.extend(chunk_results)\<close> appends the
  dicts of a list, and the characters of a string one by one.
\<close>

datatype 'a item = Rec "'a derived" | Chr char

definition extend_with :: "'a returned \<Rightarrow> 'a item list" where
  "extend_with v = (case v of AverageList ds \<Rightarrow> map Rec ds | ErrorText m \<Rightarrow> map Chr m)"

text \<open>
  Where a thread running \<^verbatim>\<open>worker\<close> stands: before the test \<^verbatim>\<open>q.empty()\<close>, before
  \<^verbatim>\<open>q.get()\<close>, holding a chunk before \<^verbatim>\<open>student_average\<close>, holding its result before the
  locked \<^verbatim>\<open>results.extend\<close>, returned from the loop, or ended by an uncaught exception.
\<close>

datatype 'a thread =
  AtTest | AtGet | Computing "pydict list" | Merging "'a returned" | Exited | Died

record 'a pool =
  queue :: "pydict list list"
  results :: "'a item list"
  threads :: "'a thread list"

text \<open>
  One atomic action of thread \<open>i\<close>. \<open>None\<close>: the thread cannot move (it has ended, or it
  waits in \<^verbatim>\<open>q.get()\<close> on an empty queue).
\<close>

definition worker_step :: "('f, 'a) python \<Rightarrow> nat \<Rightarrow> 'a pool \<Rightarrow> 'a pool option" where
  "worker_step py i s =
     (if length (threads s) \<le> i then None
      else case threads s ! i of
        AtTest \<Rightarrow>
          Some (s\<lparr>threads := (threads s)[i := if queue s = [] then Exited else AtGet]\<rparr>)
      | AtGet \<Rightarrow>
          (case queue s of
             [] \<Rightarrow> None
           | chunk # rest \<Rightarrow> Some (s\<lparr>queue := rest, threads := (threads s)[i := Computing chunk]\<rparr>))
      | Computing chunk \<Rightarrow>
          Some (s\<lparr>threads := (threads s)[i := case student_average py chunk of
                                                 Inl e \<Rightarrow> Died
                                               | Inr v \<Rightarrow> Merging v]\<rparr>)
      | Merging v \<Rightarrow>
          Some (s\<lparr>results := results s @ extend_with v, threads := (threads s)[i := AtTest]\<rparr>)
      | Exited \<Rightarrow> None
      | Died \<Rightarrow> None)"

text \<open>
  The threads interleave in an order the program does not control: a schedule lists which
  thread moves next. A thread that cannot move when it is scheduled leaves the state as it is.
\<close>

fun run :: "('f, 'a) python \<Rightarrow> nat list \<Rightarrow> 'a pool \<Rightarrow> 'a pool" where
  "run py [] s = s"
| "run py (i # sched) s =
     run py sched (case worker_step py i s of None \<Rightarrow> s | Some s' \<Rightarrow> s')"

text \<open>The loop \<^verbatim>\<open>for t in threads: t.join()\<close> returns once every thread has ended.\<close>

definition joined :: "'a pool \<Rightarrow> bool" where
  "joined s \<longleftrightarrow> list_all (\<lambda>t. t = Exited \<or> t = Died) (threads s)"

section \<open>Aggregation: \<^verbatim>\<open>average_scores\<close>\<close>

datatype 'a avg_reply = StudentAverages "'a item list" | Plain reply

text \<open>
  The state when the threads have been started. The function assigns its own local
  \<^verbatim>\<open>num_threads = 10\<close>; the module-level value read from the configuration is not used.
\<close>

definition start_pool :: "config \<Rightarrow> pydict list \<Rightarrow> 'a pool" where
  "start_pool cfg records =
     (let num_threads = 10;
          chunk_size = chunk_size num_threads records
      in \<lparr>queue = enqueue_chunks chunk_size records,
          results = [],
          threads = replicate num_threads AtTest\<rparr>)"

text \<open>
  The request handler under a schedule of the threads. \<open>None\<close>: the threads have not all
  ended when the schedule is used up, so \<^verbatim>\<open>join\<close> has not returned. \<open>Some (Inl e)\<close>: the
  handler raised \<open>e\<close>. A response object returned by \<^verbatim>\<open>read_csv\<close> is true in a condition
  and has no \<^verbatim>\<open>len\<close>.
\<close>

definition average_scores ::
  "('f, 'a) python \<Rightarrow> config \<Rightarrow> nat list \<Rightarrow> storage \<Rightarrow> (pyexn + 'a avg_reply) option" where
  "average_scores py cfg sched st =
     (case read_csv st of
        Inl e \<Rightarrow> Some (Inl e)
      | Inr ErrorJson \<Rightarrow> Some (Inl TypeError)
      | Inr (Rows records) \<Rightarrow>
          if records = [] then Some (Inr (Plain (Error 404 ''No records found'')))
          else (let s = run py sched (start_pool cfg records)
                in if \<not> joined s then None
                   else if results s = [] then Some (Inr (Plain (Error 500 ''No results computed'')))
                   else Some (Inr (StudentAverages (results s)))))"

text \<open>
  The aggregation proper inside \<^verbatim>\<open>average_scores\<close>: the queue is filled, the threads are
  started and joined, and \<open>results\<close> is what they have merged. \<open>None\<close>: \<^verbatim>\<open>join\<close> has not
  returned. The handler enters this part only with a non-empty list, and tests the result
  for emptiness afterwards.
\<close>

definition compute_averages ::
  "('f, 'a) python \<Rightarrow> config \<Rightarrow> nat list \<Rightarrow> pydict list \<Rightarrow> 'a item list option" where
  "compute_averages py cfg sched records =
     (let s = run py sched (start_pool cfg records)
      in if \<not> joined s then None else Some (results s))"

section \<open>Notions used in the proofs\<close>

text \<open>What a chunk adds to \<open>results\<close> once a thread has processed it.\<close>

definition yield :: "('f, 'a) python \<Rightarrow> pydict list \<Rightarrow> 'a item list" where
  "yield py chunk = (case student_average py chunk of Inl e \<Rightarrow> [] | Inr v \<Rightarrow> extend_with v)"

text \<open>What a thread holds that it has not merged yet.\<close>

fun held :: "('f, 'a) python \<Rightarrow> 'a thread \<Rightarrow> 'a item list" where
  "held py (Computing chunk) = yield py chunk"
| "held py (Merging v) = extend_with v"
| "held py t = []"

text \<open>Everything merged, held or still queued, as a multiset.\<close>

definition total :: "('f, 'a) python \<Rightarrow> 'a pool \<Rightarrow> 'a item multiset" where
  "total py s =
     mset (results s) + (\<Sum>t\<leftarrow>threads s. mset (held py t)) + (\<Sum>c\<leftarrow>queue s. mset (yield py c))"

text \<open>A chunk on which \<^verbatim>\<open>student_average\<close> raises nothing that escapes its \<^verbatim>\<open>except\<close> clause.\<close>

definition no_uncaught :: "('f, 'a) python \<Rightarrow> pydict list \<Rightarrow> bool" where
  "no_uncaught py chunk = (case student_average py chunk of Inl e \<Rightarrow> False | Inr v \<Rightarrow> True)"

fun thread_ok :: "('f, 'a) python \<Rightarrow> 'a thread \<Rightarrow> bool" where
  "thread_ok py Died = False"
| "thread_ok py (Computing chunk) = no_uncaught py chunk"
| "thread_ok py t = True"

definition healthy :: "('f, 'a) python \<Rightarrow> 'a pool \<Rightarrow> bool" where
  "healthy py s \<longleftrightarrow>
     list_all (no_uncaught py) (queue s) \<and> list_all (thread_ok py) (threads s) \<and>
     (Exited \<in> set (threads s) \<longrightarrow> queue s = [])"

text \<open>A record for which the \<^verbatim>\<open>try\<close> block of \<^verbatim>\<open>student_average\<close> raises nothing.\<close>

definition parses :: "('f, 'a) python \<Rightarrow> pydict \<Rightarrow> bool" where
  "parses py record = (case record_average py record of Inl e \<Rightarrow> False | Inr d \<Rightarrow> True)"

text \<open>The identifier carried by an element of the output, if it is a record.\<close>

fun item_rollno :: "'a item \<Rightarrow> pyval option" where
  "item_rollno (Rec d) = Some (d_rollno d)"
| "item_rollno (Chr c) = None"

section \<open>Concrete inputs for the examples\<close>

text \<open>
  An interpretation of the built-ins for the examples: \<^verbatim>\<open>float\<close> on a non-empty string of
  decimal digits gives its value and rejects every other string (as Python rejects the
  strings of letters used below); the rounded mean is kept as the triple of its operands;
  \<^verbatim>\<open>repr\<close> and \<^verbatim>\<open>str\<close> are abbreviated.
\<close>

fun digits :: "nat \<Rightarrow> string \<Rightarrow> nat option" where
  "digits acc [] = Some acc"
| "digits acc (c # cs) =
     (let n = (of_char c :: nat)
      in if 48 \<le> n \<and> n \<le> 57 then digits (10 * acc + (n - 48)) cs else None)"

definition example_python :: "(nat, nat \<times> nat \<times> nat) python" where
  "example_python =
     \<lparr>pyfloat = (\<lambda>s. if s = [] then None else digits 0 s),
      round_mean = (\<lambda>english maths science. (english, maths, science)),
      repr_dict = (\<lambda>record. ''{..}''),
      str_exn = (\<lambda>e. case e of KeyError k \<Rightarrow> k | ValueError s \<Rightarrow> s | _ \<Rightarrow> [])\<rparr>"

text \<open>A row with the five columns of the file.\<close>

definition student :: "string \<Rightarrow> string \<Rightarrow> string \<Rightarrow> string \<Rightarrow> string \<Rightarrow> pydict" where
  "student r n e m s =
     [''Rollno'' \<mapsto> PStr r, ''name'' \<mapsto> PStr n, ''english'' \<mapsto> PStr e,
      ''maths'' \<mapsto> PStr m, ''science'' \<mapsto> PStr s]"

definition example_config :: config where
  "example_config = \<lparr>file_path = None, thread_size = Some 5, queue_size = None\<rparr>"

section \<open>Partition into chunks\<close>

lemma ceil_div_step:
  fixes d step :: nat
  assumes "0 < step" "0 < d"
  shows "(d + step - 1) div step = Suc ((d - step + step - 1) div step)"
proof (cases "step \<le> d")
  case True
  have "d + step - 1 = (d - 1) + step" using assms by arith
  then have "(d + step - 1) div step = Suc ((d - 1) div step)"
    using assms(1) by (simp only: div_add_self2)
  moreover have "d - step + step - 1 = d - 1" using True by arith
  ultimately show ?thesis by (simp only:)
next
  case False
  have "d - step + step - 1 = step - 1" using False by arith
  then have a: "(d - step + step - 1) div step = 0" using assms(1) by simp
  have "step \<le> d + step - 1" "d + step - 1 < 2 * step"
    using False assms by arith+
  then have "(d + step - 1) div step = 1"
    by (intro div_nat_eqI) simp_all
  then show ?thesis using a by simp
qed

lemma py_range_eq:
  "0 < step \<Longrightarrow> py_range i stop step = map (\<lambda>k. i + k * step) [0..<(stop - i + step - 1) div step]"
proof (induction i stop step rule: py_range.induct)
  case (1 i stop step)
  show ?case
  proof (cases "i < stop")
    case False
    then have "(stop - i + step - 1) div step = 0" using 1(2) by simp
    then show ?thesis using False by (simp add: py_range.simps [of i stop step])
  next
    case True
    have ih: "py_range (i + step) stop step =
        map (\<lambda>k. i + step + k * step) [0..<(stop - (i + step) + step - 1) div step]"
      using 1 True by simp
    have "stop - (i + step) = stop - i - step" by arith
    then have n: "(stop - i + step - 1) div step = Suc ((stop - (i + step) + step - 1) div step)"
      using ceil_div_step [of step "stop - i"] True 1(2) by (simp only:)
    define m where "m = (stop - (i + step) + step - 1) div step"
    have "[0..<Suc m] = 0 # map Suc [0..<m]"
      by (simp only: map_Suc_upt upt_conv_Cons [of 0 "Suc m"])
    then have "map (\<lambda>k. i + k * step) [0..<Suc m] = i # map (\<lambda>k. i + step + k * step) [0..<m]"
      by (simp add: comp_def add.assoc)
    then show ?thesis
      using True 1(2) ih n by (simp add: py_range.simps [of i stop step] m_def)
  qed
qed

lemma concat_slices:
  "0 < cs \<Longrightarrow> concat (map (\<lambda>k. slice xs (k * cs) (k * cs + cs)) [0..<n]) = take (n * cs) xs"
proof (induction n)
  case 0
  then show ?case by simp
next
  case (Suc n)
  have "take (n * cs) xs @ take cs (drop (n * cs) xs) = take (n * cs + cs) xs"
    by (simp add: take_add)
  then show ?case using Suc by (simp add: slice_def add.commute)
qed

lemma enqueue_chunks_eq:
  assumes "0 < cs"
  shows "enqueue_chunks cs xs =
    map (\<lambda>k. slice xs (k * cs) (k * cs + cs)) [0..<(length xs + cs - 1) div cs]"
  using py_range_eq [OF assms, of 0 "length xs"]
  by (simp add: enqueue_chunks_def comp_def)

lemma ceil_div_bounds:
  fixes n cs :: nat
  assumes "0 < cs"
  shows "n \<le> ((n + cs - 1) div cs) * cs"
    and "0 < n \<Longrightarrow> ((n + cs - 1) div cs - 1) * cs < n"
proof -
  define q where "q = (n + cs - 1) div cs"
  define r where "r = (n + cs - 1) mod cs"
  have e: "n + cs - 1 = q * cs + r" by (simp add: q_def r_def)
  have r: "r < cs" using assms by (simp add: r_def)
  show "n \<le> q * cs" using e r by arith
  show "(q - 1) * cs < n" if "0 < n"
  proof (cases q)
    case 0
    then show ?thesis using that by simp
  next
    case (Suc q')
    then have "n + cs - 1 = q' * cs + cs + r" using e by simp
    then show ?thesis using Suc that assms by simp
  qed
qed

lemma length_enqueue_chunks:
  "0 < cs \<Longrightarrow> length (enqueue_chunks cs xs) = (length xs + cs - 1) div cs"
  by (simp add: enqueue_chunks_eq)

lemma concat_enqueue_chunks:
  assumes "0 < cs"
  shows "concat (enqueue_chunks cs xs) = xs"
  using ceil_div_bounds(1) [OF assms, of "length xs"]
  by (simp add: enqueue_chunks_eq [OF assms] concat_slices [OF assms])

lemma nth_enqueue_chunks:
  "0 < cs \<Longrightarrow> k < length (enqueue_chunks cs xs) \<Longrightarrow>
     enqueue_chunks cs xs ! k = slice xs (k * cs) (k * cs + cs)"
  by (simp add: enqueue_chunks_eq)

lemma chunk_size_pos: "0 < chunk_size n xs"
  by (simp add: chunk_size_def)

text \<open>
  C5. For a positive worker count, the chunk size is \<open>max (N div W) 1\<close>; the number of
  chunks put on the queue is the ceiling of \<open>N / chunk_size\<close>; the chunks, concatenated in
  the order they are enqueued, give back the records; chunk \<open>k\<close> is the contiguous slice
  that starts at \<open>k * chunk_size\<close>; and every position of the input lies in exactly one
  chunk, where it holds the same record.
\<close>

theorem partition_chunks:
  assumes "0 < w"
  shows "let cs = chunk_size w records;
             chunks = enqueue_chunks cs records
         in cs = max (length records div w) 1
          \<and> length chunks = (length records + cs - 1) div cs
          \<and> concat chunks = records
          \<and> (\<forall>k < length chunks. chunks ! k = slice records (k * cs) (k * cs + cs))
          \<and> (\<forall>p < length records.
                (\<exists>!k. k < length chunks \<and> k * cs \<le> p \<and> p < k * cs + length (chunks ! k))
                \<and> chunks ! (p div cs) ! (p mod cs) = records ! p)"
proof -
  define cs where "cs = chunk_size w records"
  define chunks where "chunks = enqueue_chunks cs records"
  define n where "n = (length records + cs - 1) div cs"
  have cs: "0 < cs" by (simp add: cs_def chunk_size_pos)
  have len: "length chunks = n"
    by (simp add: chunks_def n_def length_enqueue_chunks [OF cs])
  have nth: "chunks ! k = slice records (k * cs) (k * cs + cs)" if "k < n" for k
    using that len by (simp add: chunks_def nth_enqueue_chunks [OF cs])
  have cover: "length records \<le> n * cs"
    unfolding n_def by (rule ceil_div_bounds(1) [OF cs])
  have pos: "(\<exists>!k. k < length chunks \<and> k * cs \<le> p \<and> p < k * cs + length (chunks ! k))
      \<and> chunks ! (p div cs) ! (p mod cs) = records ! p" if p: "p < length records" for p
  proof -
    define k where "k = p div cs"
    have dm: "k * cs + p mod cs = p" by (simp add: k_def)
    have ml: "p mod cs < cs" using cs by simp
    have kp: "k * cs \<le> p" "p < k * cs + cs"
      using dm ml by arith+
    have "k * cs < n * cs" using kp(1) p cover by arith
    then have kn: "k < n" by simp
    have lk: "length (chunks ! k) = min cs (length records - k * cs)"
      by (simp add: nth [OF kn] slice_def)
    have in_k: "p < k * cs + length (chunks ! k)"
      using kp p by (simp add: lk)
    have uniq: "k' = k" if "k' < length chunks" "k' * cs \<le> p" "p < k' * cs + length (chunks ! k')" for k'
    proof -
      have "k' < n" using that(1) len by simp
      then have "length (chunks ! k') \<le> cs" by (simp add: nth slice_def)
      then have "p < k' * cs + cs" using that(3) by arith
      then have "p div cs = k'" using that(2) cs
        by (intro div_nat_eqI) (simp_all add: mult.commute)
      then show ?thesis by (simp add: k_def)
    qed
    have el: "chunks ! k ! (p mod cs) = records ! p"
      using p ml dm by (simp add: nth [OF kn] slice_def)
    have "\<exists>!k. k < length chunks \<and> k * cs \<le> p \<and> p < k * cs + length (chunks ! k)"
    proof (rule ex1I [of _ k])
      show "k < length chunks \<and> k * cs \<le> p \<and> p < k * cs + length (chunks ! k)"
        using kn len kp(1) in_k by simp
      show "\<And>k'. k' < length chunks \<and> k' * cs \<le> p \<and> p < k' * cs + length (chunks ! k') \<Longrightarrow> k' = k"
        using uniq by blast
    qed
    moreover have "chunks ! (p div cs) ! (p mod cs) = records ! p"
      using el by (simp add: k_def)
    ultimately show ?thesis by (rule conjI)
  qed
  have "cs = max (length records div w) 1"
    by (simp add: cs_def chunk_size_def)
  moreover have "concat chunks = records"
    by (simp add: chunks_def concat_enqueue_chunks [OF cs])
  moreover have "\<forall>k < length chunks. chunks ! k = slice records (k * cs) (k * cs + cs)"
    using nth len by simp
  ultimately show ?thesis
    using len pos unfolding Let_def cs_def [symmetric] chunks_def [symmetric] n_def [symmetric]
    by blast
qed

theorem partition_chunks_witness:
  "let records = [1, 2, 3, 4, 5, 6, 7, 8, 9, 10, 11, 12, 13, 14, 15, 16, 17, 18, 19, 20, 21, 22, 23 :: nat];
       cs = chunk_size 10 records;
       chunks = enqueue_chunks cs records
   in (0::nat) < 10 \<and> cs = 2 \<and> length chunks = 12 \<and> concat chunks = records
      \<and> chunks ! 11 = [23] \<and> 22 < length records \<and> 11 < length chunks"
proof -
  define records where "records = [1, 2, 3, 4, 5, 6, 7, 8, 9, 10, 11, 12, 13, 14, 15, 16, 17, 18, 19, 20, 21, 22, 23 :: nat]"
  have lr: "length records = 23" by (simp add: records_def)
  have cs: "chunk_size 10 records = 2"
    by (simp add: chunk_size_def lr)
  have h: "(0::nat) < 10" by simp
  note p = partition_chunks [OF h, of records, unfolded Let_def cs]
  have len: "length (enqueue_chunks 2 records) = 12"
    using conjunct1 [OF conjunct2 [OF p]] by (simp add: lr)
  have cat: "concat (enqueue_chunks 2 records) = records"
    using conjunct1 [OF conjunct2 [OF conjunct2 [OF p]]] .
  have "\<forall>k < length (enqueue_chunks 2 records).
          enqueue_chunks 2 records ! k = slice records (k * 2) (k * 2 + 2)"
    using conjunct1 [OF conjunct2 [OF conjunct2 [OF conjunct2 [OF p]]]] .
  then have "enqueue_chunks 2 records ! 11 = slice records 22 24"
    using len by simp
  then have last: "enqueue_chunks 2 records ! 11 = [23]"
    by (simp add: slice_def records_def)
  show ?thesis
    unfolding Let_def records_def [symmetric] cs
    using len cat last lr by simp
qed

section \<open>Record store\<close>

lemma new_records_absent:
  "\<forall>record \<in> set rows. \<exists>v. record ''Rollno'' = Some v \<and> v \<noteq> PStr rollno \<Longrightarrow>
     new_records rollno rows = Inr rows"
  by (induction rows) auto

lemma update_loop_absent:
  "\<forall>record \<in> set rows. \<exists>v. record ''Rollno'' = Some v \<and> v \<noteq> PStr rollno \<Longrightarrow>
     update_loop rollno fd rows = Inr (False, rows)"
  by (induction rows) auto

lemma update_loop_found:
  "\<forall>r \<in> set pre. \<exists>v. r ''Rollno'' = Some v \<and> v \<noteq> PStr rollno \<Longrightarrow>
   record ''Rollno'' = Some (PStr rollno) \<Longrightarrow>
     update_loop rollno fd (pre @ record # post) = Inr (True, pre @ (record ++ fd) # post)"
  by (induction pre) auto

lemma writable_update:
  "writable record \<Longrightarrow> writable (record ++ (d |` set valid_fields))"
  by (auto simp: writable_def valid_fields_def fieldnames_def restrict_map_def split: if_splits)

lemma csv_row_fixed_writable: "csv_row r = r \<Longrightarrow> writable r"
proof -
  assume "csv_row r = r"
  then have "dom r = dom (csv_row r)" by simp
  also have "\<dots> \<subseteq> set fieldnames" by (auto simp: csv_row_def split: if_splits)
  finally show ?thesis by (simp add: writable_def)
qed

lemma write_csv_all:
  assumes "list_all writable rows"
  shows "write_csv rows (Stored old) = (None, Stored (map csv_row rows))"
proof -
  have tw: "takeWhile writable rows = rows"
    using assms by (simp add: takeWhile_eq_all_conv list_all_iff)
  show ?thesis using assms by (simp add: write_csv_def tw)
qed

lemma update_record_found:
  assumes "\<forall>r \<in> set pre. \<exists>v. r ''Rollno'' = Some v \<and> v \<noteq> PStr rollno"
    and "record ''Rollno'' = Some (PStr rollno)"
    and "list_all writable (pre @ record # post)"
  shows "update_record rollno (JObject d) (Stored (pre @ record # post))
        = (Message 200 (''Record with Rollno '' @ rollno @ '' updated successfully''),
           Stored (map csv_row (pre @ (record ++ (d |` set valid_fields)) # post)))"
proof -
  have w: "list_all writable (pre @ (record ++ (d |` set valid_fields)) # post)"
    using assms(3) by (simp add: writable_update)
  show ?thesis
    using assms(1,2) write_csv_all [OF w]
    by (simp add: update_record_def read_csv_def update_loop_found)
qed

lemma csv_row_student: "csv_row (student r n e m s) = student r n e m s"
  by (auto simp: fun_eq_iff csv_row_def student_def fieldnames_def cell_def)

lemma writable_student: "writable (student r n e m s)"
  by (rule csv_row_fixed_writable) (rule csv_row_student)

text \<open>
  C9. Deleting an identifier that no stored record carries replies 404 "Record not found"
  and leaves the stored rows as they are; the same request, repeated on the resulting
  store, gives the same reply and the same store.
\<close>

theorem delete_absent_not_found:
  assumes "\<forall>record \<in> set rows. \<exists>v. record ''Rollno'' = Some v \<and> v \<noteq> PStr rollno"
  shows "delete_record rollno (Stored rows) = (Error 404 ''Record not found'', Stored rows)
       \<and> delete_record rollno (snd (delete_record rollno (Stored rows)))
           = (Error 404 ''Record not found'', Stored rows)"
proof -
  have "delete_record rollno (Stored rows) = (Error 404 ''Record not found'', Stored rows)"
    using new_records_absent [OF assms] by (simp add: delete_record_def read_csv_def)
  then show ?thesis by simp
qed

theorem delete_absent_not_found_witness:
  "(\<exists>v. student ''1'' ''Asha'' ''90'' ''80'' ''70'' ''Rollno'' = Some v \<and> v \<noteq> PStr ''2'')
   \<and> delete_record ''2'' (Stored [student ''1'' ''Asha'' ''90'' ''80'' ''70''])
       = (Error 404 ''Record not found'', Stored [student ''1'' ''Asha'' ''90'' ''80'' ''70''])
   \<and> delete_record ''2'' (snd (delete_record ''2'' (Stored [student ''1'' ''Asha'' ''90'' ''80'' ''70''])))
       = (Error 404 ''Record not found'', Stored [student ''1'' ''Asha'' ''90'' ''80'' ''70''])"
proof -
  have h: "\<forall>record \<in> set [student ''1'' ''Asha'' ''90'' ''80'' ''70''].
       \<exists>v. record ''Rollno'' = Some v \<and> v \<noteq> PStr ''2''"
    by (simp add: student_def)
  have "\<exists>v. student ''1'' ''Asha'' ''90'' ''80'' ''70'' ''Rollno'' = Some v \<and> v \<noteq> PStr ''2''"
    using h by simp
  then show ?thesis using delete_absent_not_found [OF h] by (intro conjI) simp_all
qed

text \<open>
  The whole list goes through \<^verbatim>\<open>write_csv\<close> on every successful update. A stored row with a
  \<^verbatim>\<open>None\<close> cell (a line shorter than the header) comes back changed from an update with an
  empty request; a stored row with a column outside the five field names makes the write
  fail after the file has been truncated: the reply is 500 and the rows from that one on
  are lost.
\<close>

theorem update_record_rewrites_rows_counterexample:
  "update_record ''2'' (JObject Map.empty)
     (Stored [[''Rollno'' \<mapsto> PStr ''2'', ''name'' \<mapsto> PStr ''Bina'', ''english'' \<mapsto> PStr ''60'',
               ''maths'' \<mapsto> PStr ''70'', ''science'' \<mapsto> PNone]])
   = (Message 200 ''Record with Rollno 2 updated successfully'',
      Stored [student ''2'' ''Bina'' ''60'' ''70'' ''''])
   \<and> student ''2'' ''Bina'' ''60'' ''70'' ''''
       \<noteq> [''Rollno'' \<mapsto> PStr ''2'', ''name'' \<mapsto> PStr ''Bina'', ''english'' \<mapsto> PStr ''60'',
          ''maths'' \<mapsto> PStr ''70'', ''science'' \<mapsto> PNone]
   \<and> update_record ''1'' (JObject Map.empty)
       (Stored [student ''1'' ''Asha'' ''90'' ''80'' ''70'',
                (student ''2'' ''Bina'' ''60'' ''70'' ''80'')(''grade'' \<mapsto> PStr ''A'')])
     = (Error 500 ''An error occurred'', Stored [student ''1'' ''Asha'' ''90'' ''80'' ''70''])"
proof -
  let ?short = "[''Rollno'' \<mapsto> PStr ''2'', ''name'' \<mapsto> PStr ''Bina'', ''english'' \<mapsto> PStr ''60'',
               ''maths'' \<mapsto> PStr ''70'', ''science'' \<mapsto> PNone]"
  let ?a = "student ''1'' ''Asha'' ''90'' ''80'' ''70''"
  let ?x = "(student ''2'' ''Bina'' ''60'' ''70'' ''80'')(''grade'' \<mapsto> PStr ''A'')"
  have w: "writable ?short"
    by (simp add: writable_def fieldnames_def)
  have new: "csv_row (?short ++ (Map.empty |` set valid_fields)) = student ''2'' ''Bina'' ''60'' ''70'' ''''"
    by (auto simp: fun_eq_iff csv_row_def student_def fieldnames_def cell_def)
  have "update_record ''2'' (JObject Map.empty) (Stored ([] @ ?short # []))
      = (Message 200 (''Record with Rollno '' @ ''2'' @ '' updated successfully''),
         Stored (map csv_row ([] @ (?short ++ (Map.empty |` set valid_fields)) # [])))"
    by (rule update_record_found) (simp_all add: w)
  then have c1: "update_record ''2'' (JObject Map.empty) (Stored [?short])
      = (Message 200 ''Record with Rollno 2 updated successfully'',
         Stored [student ''2'' ''Bina'' ''60'' ''70'' ''''])"
    using new by simp
  have "student ''2'' ''Bina'' ''60'' ''70'' '''' ''science'' \<noteq> ?short ''science''"
    by (simp add: student_def)
  then have c2: "student ''2'' ''Bina'' ''60'' ''70'' '''' \<noteq> ?short"
    by (auto simp del: fun_upd_apply)
  have nx: "\<not> writable ?x"
    by (simp add: writable_def fieldnames_def student_def)
  have l: "update_loop ''1'' (Map.empty |` set valid_fields) ([] @ ?a # [?x])
      = Inr (True, [] @ (?a ++ (Map.empty |` set valid_fields)) # [?x])"
    by (rule update_loop_found) (simp_all add: student_def)
  have c3: "update_record ''1'' (JObject Map.empty) (Stored [?a, ?x])
     = (Error 500 ''An error occurred'', Stored [?a])"
    using l nx by (simp add: update_record_def read_csv_def write_csv_def writable_student csv_row_student)
  show ?thesis using c1 c2 c3 by (intro conjI)
qed

text \<open>
  C8. For a readable store whose records carry a \<open>Rollno\<close>: (1) when no stored record
  carries the identifier, the update replies 404 and leaves the store as it is. (2) When a
  record carries it and no stored row has a column outside the five field names, the first
  such record takes the values of the request restricted to the allowed fields, every other
  record is kept, and the whole list is written back in the five-column form of the file.
  (3) With an empty request object and rows already in that form, the store after the
  update is the store before it.
\<close>

theorem update_record_fields:
  "((\<forall>r \<in> set rows. \<exists>v. r ''Rollno'' = Some v \<and> v \<noteq> PStr rollno) \<longrightarrow>
      update_record rollno (JObject d) (Stored rows)
        = (Error 404 (''Record with Rollno '' @ rollno @ '' not found''), Stored rows))
   \<and> ((\<forall>r \<in> set pre. \<exists>v. r ''Rollno'' = Some v \<and> v \<noteq> PStr rollno) \<and>
       record ''Rollno'' = Some (PStr rollno) \<and> list_all writable (pre @ record # post) \<longrightarrow>
      update_record rollno (JObject d) (Stored (pre @ record # post))
        = (Message 200 (''Record with Rollno '' @ rollno @ '' updated successfully''),
           Stored (map csv_row (pre @ (record ++ (d |` set valid_fields)) # post))))
   \<and> ((\<forall>r \<in> set pre. \<exists>v. r ''Rollno'' = Some v \<and> v \<noteq> PStr rollno) \<and>
       record ''Rollno'' = Some (PStr rollno) \<and> (\<forall>r \<in> set (pre @ record # post). csv_row r = r) \<longrightarrow>
      update_record rollno (JObject Map.empty) (Stored (pre @ record # post))
        = (Message 200 (''Record with Rollno '' @ rollno @ '' updated successfully''),
           Stored (pre @ record # post)))"
proof (intro conjI impI)
  assume "\<forall>r \<in> set rows. \<exists>v. r ''Rollno'' = Some v \<and> v \<noteq> PStr rollno"
  then show "update_record rollno (JObject d) (Stored rows)
        = (Error 404 (''Record with Rollno '' @ rollno @ '' not found''), Stored rows)"
    by (simp add: update_record_def read_csv_def update_loop_absent)
next
  assume a: "(\<forall>r \<in> set pre. \<exists>v. r ''Rollno'' = Some v \<and> v \<noteq> PStr rollno) \<and>
       record ''Rollno'' = Some (PStr rollno) \<and> list_all writable (pre @ record # post)"
  then show "update_record rollno (JObject d) (Stored (pre @ record # post))
        = (Message 200 (''Record with Rollno '' @ rollno @ '' updated successfully''),
           Stored (map csv_row (pre @ (record ++ (d |` set valid_fields)) # post)))"
    by (intro update_record_found) simp_all
next
  assume a: "(\<forall>r \<in> set pre. \<exists>v. r ''Rollno'' = Some v \<and> v \<noteq> PStr rollno) \<and>
       record ''Rollno'' = Some (PStr rollno) \<and> (\<forall>r \<in> set (pre @ record # post). csv_row r = r)"
  then have w: "list_all writable (pre @ record # post)"
    by (auto simp: list_all_iff csv_row_fixed_writable)
  have m: "map csv_row (pre @ record # post) = pre @ record # post"
    using a by (simp add: map_idI)
  show "update_record rollno (JObject Map.empty) (Stored (pre @ record # post))
        = (Message 200 (''Record with Rollno '' @ rollno @ '' updated successfully''),
           Stored (pre @ record # post))"
    using a write_csv_all [OF w] m
    by (simp add: update_record_def read_csv_def update_loop_found)
qed


theorem update_record_fields_witness:
  "((\<exists>v. student ''1'' ''Asha'' ''90'' ''80'' ''70'' ''Rollno'' = Some v \<and> v \<noteq> PStr ''2'')
    \<and> update_record ''2'' (JObject [''maths'' \<mapsto> PStr ''75''])
          (Stored [student ''1'' ''Asha'' ''90'' ''80'' ''70''])
        = (Error 404 ''Record with Rollno 2 not found'',
           Stored [student ''1'' ''Asha'' ''90'' ''80'' ''70'']))
   \<and> (student ''2'' ''Bina'' ''60'' ''70'' ''80'' ''Rollno'' = Some (PStr ''2'')
    \<and> list_all writable
          ([student ''1'' ''Asha'' ''90'' ''80'' ''70''] @ student ''2'' ''Bina'' ''60'' ''70'' ''80'' # [])
    \<and> update_record ''2'' (JObject [''maths'' \<mapsto> PStr ''75'', ''grade'' \<mapsto> PStr ''A''])
          (Stored [student ''1'' ''Asha'' ''90'' ''80'' ''70'', student ''2'' ''Bina'' ''60'' ''70'' ''80''])
        = (Message 200 ''Record with Rollno 2 updated successfully'',
           Stored [student ''1'' ''Asha'' ''90'' ''80'' ''70'', student ''2'' ''Bina'' ''60'' ''75'' ''80'']))
   \<and> (csv_row (student ''1'' ''Asha'' ''90'' ''80'' ''70'') = student ''1'' ''Asha'' ''90'' ''80'' ''70''
    \<and> csv_row (student ''2'' ''Bina'' ''60'' ''70'' ''80'') = student ''2'' ''Bina'' ''60'' ''70'' ''80''
    \<and> update_record ''2'' (JObject Map.empty)
          (Stored [student ''1'' ''Asha'' ''90'' ''80'' ''70'', student ''2'' ''Bina'' ''60'' ''70'' ''80''])
        = (Message 200 ''Record with Rollno 2 updated successfully'',
           Stored [student ''1'' ''Asha'' ''90'' ''80'' ''70'', student ''2'' ''Bina'' ''60'' ''70'' ''80'']))"
proof -
  let ?a = "student ''1'' ''Asha'' ''90'' ''80'' ''70''"
  let ?b = "student ''2'' ''Bina'' ''60'' ''70'' ''80''"
  let ?d = "[''maths'' \<mapsto> PStr ''75'', ''grade'' \<mapsto> PStr ''A'']"
  have h1: "\<forall>r \<in> set [?a]. \<exists>v. r ''Rollno'' = Some v \<and> v \<noteq> PStr ''2''"
    by (simp add: student_def)
  have h2: "?b ''Rollno'' = Some (PStr ''2'')"
    by (simp add: student_def)
  have h3: "list_all writable ([?a] @ ?b # [])"
    by (simp add: writable_student)
  have h4: "\<forall>r \<in> set ([?a] @ ?b # []). csv_row r = r"
    by (simp add: csv_row_student)
  have new: "csv_row (?b ++ (?d |` set valid_fields)) = student ''2'' ''Bina'' ''60'' ''75'' ''80''"
    by (auto simp: fun_eq_iff csv_row_def student_def fieldnames_def valid_fields_def cell_def
        map_add_def restrict_map_def)
  note t1 = update_record_fields [of "[?a]" "''2''" "[''maths'' \<mapsto> PStr ''75'']" "[?a]" ?b "[]"]
  note t2 = update_record_fields [of "[?a]" "''2''" ?d "[?a]" ?b "[]"]
  have c1: "update_record ''2'' (JObject [''maths'' \<mapsto> PStr ''75'']) (Stored [?a])
        = (Error 404 ''Record with Rollno 2 not found'', Stored [?a])"
    using conjunct1 [OF t1] h1 by simp
  have c2: "update_record ''2'' (JObject ?d) (Stored [?a, ?b])
        = (Message 200 ''Record with Rollno 2 updated successfully'',
           Stored [?a, student ''2'' ''Bina'' ''60'' ''75'' ''80''])"
    using conjunct1 [OF conjunct2 [OF t2]] h1 h2 h3 new by (simp add: csv_row_student)
  have c3: "update_record ''2'' (JObject Map.empty) (Stored [?a, ?b])
        = (Message 200 ''Record with Rollno 2 updated successfully'', Stored [?a, ?b])"
    using conjunct2 [OF conjunct2 [OF t2]] h1 h2 h4 by simp
  have e1: "\<exists>v. ?a ''Rollno'' = Some v \<and> v \<noteq> PStr ''2''"
    using h1 by simp
  show ?thesis
    using e1 h2 h3 c1 c2 c3 by (intro conjI) (simp_all add: csv_row_student)
qed

text \<open>
  C10. \<open>Rollno\<close> is one of the allowed fields, so an update may rewrite the identifier:
  from a store with the distinct identifiers 1 and 2, the update of record 1 with
  \<open>Rollno = 2\<close> succeeds and leaves two records with identifier 2.
\<close>

theorem update_rollno_duplicates:
  "''Rollno'' \<in> set valid_fields
   \<and> update_record ''1'' (JObject [''Rollno'' \<mapsto> PStr ''2''])
         (Stored [student ''1'' ''Asha'' ''90'' ''80'' ''70'', student ''2'' ''Bina'' ''60'' ''70'' ''80''])
       = (Message 200 ''Record with Rollno 1 updated successfully'',
          Stored [student ''2'' ''Asha'' ''90'' ''80'' ''70'', student ''2'' ''Bina'' ''60'' ''70'' ''80''])
   \<and> map (\<lambda>r. r ''Rollno'')
         [student ''2'' ''Asha'' ''90'' ''80'' ''70'', student ''2'' ''Bina'' ''60'' ''70'' ''80'']
       = [Some (PStr ''2''), Some (PStr ''2'')]"
proof -
  let ?a = "student ''1'' ''Asha'' ''90'' ''80'' ''70''"
  let ?b = "student ''2'' ''Bina'' ''60'' ''70'' ''80''"
  have new: "csv_row (?a ++ ([''Rollno'' \<mapsto> PStr ''2''] |` set valid_fields))
      = student ''2'' ''Asha'' ''90'' ''80'' ''70''"
    by (auto simp: fun_eq_iff csv_row_def student_def fieldnames_def valid_fields_def cell_def
        map_add_def restrict_map_def)
  have "update_record ''1'' (JObject [''Rollno'' \<mapsto> PStr ''2'']) (Stored ([] @ ?a # [?b]))
      = (Message 200 (''Record with Rollno '' @ ''1'' @ '' updated successfully''),
         Stored (map csv_row ([] @ (?a ++ ([''Rollno'' \<mapsto> PStr ''2''] |` set valid_fields)) # [?b])))"
    by (rule update_record_found) (simp_all add: student_def writable_student [unfolded student_def])
  then have "update_record ''1'' (JObject [''Rollno'' \<mapsto> PStr ''2'']) (Stored [?a, ?b])
      = (Message 200 ''Record with Rollno 1 updated successfully'',
         Stored [student ''2'' ''Asha'' ''90'' ''80'' ''70'', ?b])"
    using new by (simp add: csv_row_student)
  moreover have "''Rollno'' \<in> set valid_fields" by (simp add: valid_fields_def)
  moreover have "map (\<lambda>r. r ''Rollno'') [student ''2'' ''Asha'' ''90'' ''80'' ''70'', ?b]
       = [Some (PStr ''2''), Some (PStr ''2'')]"
    by (simp add: student_def)
  ultimately show ?thesis by (intro conjI)
qed

text \<open>
  C3. With the backing file absent, \<^verbatim>\<open>read_csv\<close> raises nothing: it returns the response
  object as its value. The callers go on to use that value as the list of rows; the
  average handler ends in a \<^verbatim>\<open>TypeError\<close>, the update and delete handlers in their generic
  500 reply.
\<close>

theorem read_csv_missing_file:
  "read_csv Missing = Inr ErrorJson
   \<and> average_scores py cfg sched Missing = Some (Inl TypeError)
   \<and> update_record rollno data Missing = (Error 500 ''An error occurred'', Missing)
   \<and> delete_record rollno Missing = (Error 500 ''An error occurred'', Missing)"
  by (simp add: read_csv_def average_scores_def update_record_def delete_record_def)

section \<open>Aggregation\<close>

lemma sum_list_update_mset:
  fixes f :: "'b \<Rightarrow> 'c multiset"
  shows "i < length ts \<Longrightarrow>
    (\<Sum>t\<leftarrow>ts[i := t']. f t) + f (ts ! i) = (\<Sum>t\<leftarrow>ts. f t) + f t'"
proof (induction ts arbitrary: i)
  case Nil
  then show ?case by simp
next
  case (Cons t ts)
  show ?case
  proof (cases i)
    case 0
    then show ?thesis by (simp add: ac_simps)
  next
    case (Suc j)
    then have "j < length ts" using Cons.prems by simp
    from Cons.IH [OF this] show ?thesis using Suc by (simp add: ac_simps)
  qed
qed

lemma held_update:
  assumes "i < length ts" and "mset (held py (ts ! i)) = mset (held py t') + extra"
  shows "(\<Sum>t\<leftarrow>ts. mset (held py t)) = (\<Sum>t\<leftarrow>ts[i := t']. mset (held py t)) + extra"
proof -
  have "(\<Sum>t\<leftarrow>ts[i := t']. mset (held py t)) + mset (held py (ts ! i))
      = (\<Sum>t\<leftarrow>ts. mset (held py t)) + mset (held py t')"
    using assms(1) by (rule sum_list_update_mset)
  then show ?thesis using assms(2) by (simp add: ac_simps)
qed

lemma worker_step_cases:
  assumes "worker_step py i s = Some s'"
  obtains
    (test) "i < length (threads s)" "threads s ! i = AtTest"
      "s' = s\<lparr>threads := (threads s)[i := if queue s = [] then Exited else AtGet]\<rparr>"
  | (get) chunk rest where "i < length (threads s)" "threads s ! i = AtGet" "queue s = chunk # rest"
      "s' = s\<lparr>queue := rest, threads := (threads s)[i := Computing chunk]\<rparr>"
  | (compute) chunk where "i < length (threads s)" "threads s ! i = Computing chunk"
      "s' = s\<lparr>threads := (threads s)[i := case student_average py chunk of
                                               Inl e \<Rightarrow> Died | Inr v \<Rightarrow> Merging v]\<rparr>"
  | (merge) v where "i < length (threads s)" "threads s ! i = Merging v"
      "s' = s\<lparr>results := results s @ extend_with v, threads := (threads s)[i := AtTest]\<rparr>"
  using assms
  by (auto simp: worker_step_def split: if_splits thread.splits list.splits)

lemma total_step:
  assumes "worker_step py i s = Some s'"
  shows "total py s' = total py s"
  using assms
proof (cases rule: worker_step_cases)
  case test
  have "(\<Sum>t\<leftarrow>threads s. mset (held py t))
      = (\<Sum>t\<leftarrow>(threads s)[i := if queue s = [] then Exited else AtGet]. mset (held py t)) + {#}"
    by (rule held_update) (use test in simp_all)
  then show ?thesis using test by (simp add: total_def)
next
  case (get chunk rest)
  have "(\<Sum>t\<leftarrow>(threads s)[i := Computing chunk]. mset (held py t)) + mset (held py (threads s ! i))
      = (\<Sum>t\<leftarrow>threads s. mset (held py t)) + mset (held py (Computing chunk))"
    using get(1) by (rule sum_list_update_mset)
  then show ?thesis using get by (simp add: total_def ac_simps)
next
  case (compute chunk)
  have "(\<Sum>t\<leftarrow>threads s. mset (held py t))
      = (\<Sum>t\<leftarrow>(threads s)[i := case student_average py chunk of
                                     Inl e \<Rightarrow> Died | Inr v \<Rightarrow> Merging v]. mset (held py t)) + {#}"
    by (rule held_update) (use compute in \<open>simp_all add: yield_def split: sum.splits\<close>)
  then show ?thesis using compute by (simp add: total_def)
next
  case (merge v)
  have "(\<Sum>t\<leftarrow>threads s. mset (held py t))
      = (\<Sum>t\<leftarrow>(threads s)[i := AtTest]. mset (held py t)) + mset (extend_with v)"
    by (rule held_update) (use merge in simp_all)
  then show ?thesis using merge by (simp add: total_def ac_simps)
qed

lemma total_run: "total py (run py sched s) = total py s"
  by (induction sched arbitrary: s) (auto simp: total_step split: option.splits)

lemma list_all_update:
  "list_all P ts \<Longrightarrow> P t' \<Longrightarrow> list_all P (ts[i := t'])"
  by (auto simp: list_all_iff dest!: set_update_subset_insert [THEN subsetD])

lemma healthy_step:
  assumes "worker_step py i s = Some s'" and "healthy py s"
  shows "healthy py s'"
  using assms(1)
proof (cases rule: worker_step_cases)
  case test
  then show ?thesis
    using assms(2)
    by (auto simp: healthy_def list_all_update dest!: set_update_subset_insert [THEN subsetD])
next
  case (get chunk rest)
  have "Exited \<notin> set (threads s)" using assms(2) get by (auto simp: healthy_def)
  then have "Exited \<notin> set ((threads s)[i := Computing chunk])"
    by (auto dest!: set_update_subset_insert [THEN subsetD])
  then show ?thesis
    using assms(2) get by (simp add: healthy_def list_all_update)
next
  case (compute chunk)
  have "thread_ok py (threads s ! i)"
    using assms(2) compute(1) by (simp add: healthy_def list_all_length)
  then obtain v where v: "student_average py chunk = Inr v"
    using compute(2) by (auto simp: no_uncaught_def split: sum.splits)
  show ?thesis
    using assms(2) compute v
    by (auto simp: healthy_def list_all_update dest!: set_update_subset_insert [THEN subsetD])
next
  case (merge v)
  then show ?thesis
    using assms(2)
    by (auto simp: healthy_def list_all_update dest!: set_update_subset_insert [THEN subsetD])
qed

lemma healthy_run: "healthy py s \<Longrightarrow> healthy py (run py sched s)"
  by (induction sched arbitrary: s) (auto simp: healthy_step split: option.splits)

lemma length_threads_step:
  "worker_step py i s = Some s' \<Longrightarrow> length (threads s') = length (threads s)"
  by (erule worker_step_cases) simp_all

lemma length_threads_run: "length (threads (run py sched s)) = length (threads s)"
  by (induction sched arbitrary: s) (auto simp: length_threads_step split: option.splits)

lemma joined_healthy_total:
  assumes "joined s" and "healthy py s" and "threads s \<noteq> []"
  shows "total py s = mset (results s)"
proof -
  have ex: "t = Exited" if "t \<in> set (threads s)" for t
  proof -
    have "t = Exited \<or> t = Died" using assms(1) that by (simp add: joined_def list_all_iff)
    moreover have "thread_ok py t" using assms(2) that by (simp add: healthy_def list_all_iff)
    ultimately show ?thesis by auto
  qed
  obtain t where "t \<in> set (threads s)" using assms(3) by (cases "threads s") auto
  then have "Exited \<in> set (threads s)" using ex by auto
  then have q: "queue s = []" using assms(2) by (simp add: healthy_def)
  have "(\<Sum>t\<leftarrow>threads s. mset (held py t)) = (\<Sum>t\<leftarrow>threads s. {#})"
    by (rule arg_cong [where f = sum_list], rule map_cong) (auto dest: ex)
  then show ?thesis using q by (simp add: total_def)
qed


lemma run_append: "run py (a @ b) s = run py b (run py a s)"
  by (induction a arbitrary: s) simp_all

lemma drain:
  assumes "queue s = q" "0 < length (threads s)" "threads s ! 0 = AtTest"
    "list_all (no_uncaught py) q"
  shows "run py (replicate (4 * length q + 1) 0) s =
     s\<lparr>queue := [], results := results s @ concat (map (yield py) q),
       threads := (threads s)[0 := Exited]\<rparr>"
  using assms
proof (induction q arbitrary: s)
  case Nil
  then show ?case by (simp add: worker_step_def)
next
  case (Cons c q)
  obtain v where v: "student_average py c = Inr v"
    using Cons.prems(4) by (auto simp: no_uncaught_def split: sum.splits)
  define s1 where "s1 = s\<lparr>queue := q, results := results s @ extend_with v\<rparr>"
  have four: "run py [0, 0, 0, 0] s = s1"
    using Cons.prems(1,2,3) v
    by (simp add: worker_step_def s1_def list_update_same_conv [THEN iffD2])
  have "4 * length (c # q) + 1 = Suc (Suc (Suc (Suc (4 * length q + 1))))" by simp
  then have rep: "replicate (4 * length (c # q) + 1) (0::nat) = [0, 0, 0, 0] @ replicate (4 * length q + 1) 0"
    by (simp only: replicate_Suc) simp
  have ih: "run py (replicate (4 * length q + 1) 0) s1 =
     s1\<lparr>queue := [], results := results s1 @ concat (map (yield py) q),
        threads := (threads s1)[0 := Exited]\<rparr>"
    by (rule Cons.IH) (use Cons.prems in \<open>simp_all add: s1_def\<close>)
  have y: "yield py c = extend_with v" by (simp add: yield_def v)
  have "run py (replicate (4 * length (c # q) + 1) 0) s = run py (replicate (4 * length q + 1) 0) s1"
    by (simp only: rep run_append four)
  also note ih
  also have "s1\<lparr>queue := [], results := results s1 @ concat (map (yield py) q),
        threads := (threads s1)[0 := Exited]\<rparr>
      = s\<lparr>queue := [], results := results s @ concat (map (yield py) (c # q)),
        threads := (threads s)[0 := Exited]\<rparr>"
    by (simp add: s1_def y)
  finally show ?case .
qed

lemma finish:
  assumes "queue s = []" "\<forall>t \<in> set (threads s). t = AtTest \<or> t = Exited"
  shows "queue (run py sched s) = [] \<and> results (run py sched s) = results s
    \<and> length (threads (run py sched s)) = length (threads s)
    \<and> (\<forall>i < length (threads s).
          threads (run py sched s) ! i = (if i \<in> set sched then Exited else threads s ! i))"
  using assms
proof (induction sched arbitrary: s)
  case Nil
  then show ?case by simp
next
  case (Cons j sched)
  define s1 where "s1 = (case worker_step py j s of None \<Rightarrow> s | Some s' \<Rightarrow> s')"
  have ts: "\<forall>i < length (threads s). threads s ! i = AtTest \<or> threads s ! i = Exited"
    using Cons.prems(2) by simp
  have s1: "queue s1 = [] \<and> results s1 = results s \<and> length (threads s1) = length (threads s)
      \<and> (\<forall>i < length (threads s). threads s1 ! i = (if i = j then Exited else threads s ! i))"
  proof (cases "j < length (threads s)")
    case False
    then show ?thesis using Cons.prems(1) by (auto simp: s1_def worker_step_def)
  next
    case True
    then have "threads s ! j = AtTest \<or> threads s ! j = Exited" using ts by simp
    then show ?thesis
      using True Cons.prems(1) by (auto simp: s1_def worker_step_def)
  qed
  have ok1: "\<forall>t \<in> set (threads s1). t = AtTest \<or> t = Exited"
  proof
    fix t assume "t \<in> set (threads s1)"
    then obtain i where i: "i < length (threads s1)" "t = threads s1 ! i"
      by (auto simp: in_set_conv_nth)
    then have il: "i < length (threads s)" using s1 by simp
    then have "threads s1 ! i = (if i = j then Exited else threads s ! i)" using s1 by blast
    moreover have "threads s ! i = AtTest \<or> threads s ! i = Exited" using ts il by blast
    ultimately show "t = AtTest \<or> t = Exited" using i(2) by (simp split: if_splits)
  qed
  have ih: "queue (run py sched s1) = [] \<and> results (run py sched s1) = results s1
    \<and> length (threads (run py sched s1)) = length (threads s1)
    \<and> (\<forall>i < length (threads s1).
          threads (run py sched s1) ! i = (if i \<in> set sched then Exited else threads s1 ! i))"
    by (rule Cons.IH) (use s1 ok1 in simp_all)
  have r: "run py (j # sched) s = run py sched s1" by (simp add: s1_def)
  show ?case unfolding r using ih s1 by auto
qed

lemma sequential_run:
  assumes "list_all (no_uncaught py) (queue s)" "threads s = replicate n AtTest" "0 < n"
  shows "joined (run py (replicate (4 * length (queue s) + 1) 0 @ [0..<n]) s)"
    and "results (run py (replicate (4 * length (queue s) + 1) 0 @ [0..<n]) s)
           = results s @ concat (map (yield py) (queue s))"
proof -
  define s1 where "s1 = s\<lparr>queue := [], results := results s @ concat (map (yield py) (queue s)),
       threads := (threads s)[0 := Exited]\<rparr>"
  have d: "run py (replicate (4 * length (queue s) + 1) 0) s = s1"
    unfolding s1_def by (rule drain) (use assms in simp_all)
  have ok: "\<forall>t \<in> set (threads s1). t = AtTest \<or> t = Exited"
    using assms(2) by (auto simp: s1_def dest!: set_update_subset_insert [THEN subsetD])
  have len: "length (threads s1) = n" using assms(2) by (simp add: s1_def)
  note f = finish [of s1 py "[0..<n]", OF _ ok]
  have q: "queue s1 = []" by (simp add: s1_def)
  have "\<forall>i < n. threads (run py [0..<n] s1) ! i = Exited"
    using f [OF q] len by simp
  moreover have "length (threads (run py [0..<n] s1)) = n"
    using f [OF q] len by simp
  ultimately show "joined (run py (replicate (4 * length (queue s) + 1) 0 @ [0..<n]) s)"
    unfolding run_append d by (simp add: joined_def list_all_length)
  show "results (run py (replicate (4 * length (queue s) + 1) 0 @ [0..<n]) s)
           = results s @ concat (map (yield py) (queue s))"
    unfolding run_append d using f [OF q] by (simp add: s1_def)
qed


lemma sum_list_replicate_empty: "(\<Sum>t\<leftarrow>replicate n x. ({#} :: 'b multiset)) = {#}"
  by (induction n) simp_all

lemma start_pool_simps:
  "queue (start_pool cfg records) = enqueue_chunks (chunk_size 10 records) records"
  "results (start_pool cfg records) = []"
  "threads (start_pool cfg records) = replicate 10 AtTest"
  by (simp_all add: start_pool_def)

lemma total_start_pool:
  "total py (start_pool cfg records)
     = mset (concat (map (yield py) (enqueue_chunks (chunk_size 10 records) records)))"
proof -
  have "(\<Sum>t\<leftarrow>replicate 10 AtTest. mset (held py t)) = (\<Sum>t\<leftarrow>replicate 10 (AtTest :: 'b thread). {#})"
    by simp
  then show ?thesis
    by (simp only: total_def start_pool_simps mset_concat sum_list_replicate_empty) (simp add: comp_def)
qed

lemma healthy_start_pool:
  assumes "list_all (no_uncaught py) (enqueue_chunks (chunk_size 10 records) records)"
  shows "healthy py (start_pool cfg records)"
  using assms by (simp add: healthy_def start_pool_simps list_all_iff)

lemma returned_items:
  assumes "records \<noteq> []"
    and "list_all (no_uncaught py) (enqueue_chunks (chunk_size 10 records) records)"
    and "average_scores py cfg sched (Stored records) = Some out"
  shows "\<exists>items.
      mset items = mset (concat (map (yield py) (enqueue_chunks (chunk_size 10 records) records)))
    \<and> out = Inr (if items = [] then Plain (Error 500 ''No results computed'')
                  else StudentAverages items)"
proof -
  define s where "s = run py sched (start_pool cfg records)"
  have j: "joined s"
    using assms(1,3) by (simp add: average_scores_def read_csv_def s_def Let_def split: if_splits)
  have out: "out = Inr (if results s = [] then Plain (Error 500 ''No results computed'')
                  else StudentAverages (results s))"
    using assms(1,3) by (simp add: average_scores_def read_csv_def s_def Let_def split: if_splits)
  have h: "healthy py s"
    unfolding s_def by (rule healthy_run) (rule healthy_start_pool [OF assms(2)])
  have "threads s \<noteq> []"
    using length_threads_run [of py sched "start_pool cfg records"]
    by (auto simp: s_def start_pool_simps)
  then have "total py s = mset (results s)"
    using j h by (intro joined_healthy_total)
  then have "mset (results s)
      = mset (concat (map (yield py) (enqueue_chunks (chunk_size 10 records) records)))"
    by (simp add: s_def total_run total_start_pool)
  then show ?thesis using out by blast
qed

lemma returns_sequential:
  assumes "records \<noteq> []"
    and "list_all (no_uncaught py) (enqueue_chunks (chunk_size 10 records) records)"
  shows "average_scores py cfg
           (replicate (4 * length (enqueue_chunks (chunk_size 10 records) records) + 1) 0 @ [0..<10])
           (Stored records)
       = Some (Inr (if concat (map (yield py) (enqueue_chunks (chunk_size 10 records) records)) = []
                    then Plain (Error 500 ''No results computed'')
                    else StudentAverages
                      (concat (map (yield py) (enqueue_chunks (chunk_size 10 records) records)))))"
proof -
  let ?s = "start_pool cfg records :: 'b pool"
  have a: "list_all (no_uncaught py) (queue ?s)" using assms(2) by (simp add: start_pool_simps)
  have b: "threads ?s = replicate 10 AtTest" by (simp add: start_pool_simps)
  note r = sequential_run [OF a b]
  show ?thesis
    using assms(1) r
    by (simp add: average_scores_def read_csv_def Let_def start_pool_simps)
qed

lemma average_loop_parses:
  "\<forall>r \<in> set rs. parses py r \<Longrightarrow>
     average_loop py acc rs = Inr (AverageList (acc @ map (\<lambda>r. projr (record_average py r)) rs))"
  by (induction rs arbitrary: acc) (auto simp: parses_def split: sum.splits)

lemma yield_parses:
  assumes "\<forall>r \<in> set chunk. parses py r"
  shows "no_uncaught py chunk"
    and "yield py chunk = map (\<lambda>r. Rec (projr (record_average py r))) chunk"
  using average_loop_parses [OF assms, of "[]"]
  by (simp_all add: no_uncaught_def yield_def student_average_def extend_with_def)

lemma set_enqueue_chunks:
  assumes "chunk \<in> set (enqueue_chunks (chunk_size n records) records)"
  shows "set chunk \<subseteq> set records"
proof -
  have "set chunk \<subseteq> set (concat (enqueue_chunks (chunk_size n records) records))"
    using assms by auto
  then show ?thesis by (simp only: concat_enqueue_chunks [OF chunk_size_pos])
qed

lemma chunks_parse:
  assumes "\<forall>r \<in> set records. parses py r"
  shows "list_all (no_uncaught py) (enqueue_chunks (chunk_size n records) records)"
    and "concat (map (yield py) (enqueue_chunks (chunk_size n records) records))
           = map (\<lambda>r. Rec (projr (record_average py r))) records"
proof -
  let ?chunks = "enqueue_chunks (chunk_size n records) records"
  have p: "\<forall>r \<in> set chunk. parses py r" if "chunk \<in> set ?chunks" for chunk
    using set_enqueue_chunks [OF that] assms by blast
  show "list_all (no_uncaught py) ?chunks"
    using yield_parses(1) p unfolding list_all_iff by blast
  have eq: "map (yield py) ?chunks = map (map (\<lambda>r. Rec (projr (record_average py r)))) ?chunks"
    using yield_parses(2) p by (intro map_cong refl) blast
  have "concat (map (yield py) ?chunks)
      = map (\<lambda>r. Rec (projr (record_average py r))) (concat ?chunks)"
    by (simp only: eq map_concat)
  then show "concat (map (yield py) ?chunks) = map (\<lambda>r. Rec (projr (record_average py r))) records"
    by (simp only: concat_enqueue_chunks [OF chunk_size_pos])
qed

lemma rollno_parses:
  assumes "parses py r"
  shows "item_rollno (Rec (projr (record_average py r))) = r ''Rollno''"
  using assms
  by (auto simp: parses_def record_average_def subscript_def Let_def split: sum.splits option.splits)

lemma blocked_forever:
  assumes "queue s = []" "i < length (threads s)" "threads s ! i = AtGet"
  shows "\<not> joined (run py sched s)"
proof -
  have "queue (run py sched s) = [] \<and> i < length (threads (run py sched s))
      \<and> threads (run py sched s) ! i = AtGet"
    using assms
  proof (induction sched arbitrary: s)
    case Nil
    then show ?case by simp
  next
    case (Cons j sched)
    show ?case
    proof (cases "worker_step py j s")
      case None
      then show ?thesis using Cons by simp
    next
      case (Some s')
      have "queue s' = [] \<and> i < length (threads s') \<and> threads s' ! i = AtGet"
        using Some
      proof (cases rule: worker_step_cases)
        case test
        then show ?thesis using Cons.prems by (cases "i = j") auto
      next
        case (get chunk rest)
        then show ?thesis using Cons.prems by simp
      next
        case (compute chunk)
        then show ?thesis using Cons.prems by (cases "i = j") auto
      next
        case (merge v)
        then show ?thesis using Cons.prems by (cases "i = j") auto
      qed
      then show ?thesis using Some Cons.IH by simp
    qed
  qed
  then show ?thesis by (auto simp: joined_def list_all_length)
qed

text \<open>
  The test \<^verbatim>\<open>q.empty()\<close> and the call \<^verbatim>\<open>q.get()\<close> are two actions. With one chunk queued,
  threads 0 and 1 can both pass the test before thread 0 takes the chunk; thread 1 then
  waits in \<^verbatim>\<open>q.get()\<close> for ever and the handler never returns, however the schedule goes on.
\<close>

lemma average_scores_can_block:
  "average_scores py cfg ([0, 1, 0] @ rest) (Stored [record]) = None"
proof -
  define s where "s = run py [0, 1, 0] (start_pool cfg [record])"
  have q: "enqueue_chunks (chunk_size 10 [record]) [record] = [[record]]"
    by (simp add: enqueue_chunks_eq chunk_size_def slice_def)
  have "queue s = [] \<and> 1 < length (threads s) \<and> threads s ! 1 = AtGet"
    by (simp add: s_def worker_step_def start_pool_simps q)
  then have "\<not> joined (run py rest s)" using blocked_forever [of s 1] by simp
  then show ?thesis
    by (simp add: average_scores_def read_csv_def Let_def run_append s_def)
qed


lemma two_chunks: "enqueue_chunks (chunk_size 10 [a, b]) [a, b] = [[a], [b]]"
  by (simp add: enqueue_chunks_eq chunk_size_def slice_def upt_conv_Cons)

lemma record_average_student:
  assumes "pyfloat py e = Some x" "pyfloat py m = Some y" "pyfloat py s = Some z"
  shows "record_average py (student r n e m s) = Inr (Derived (PStr r) (PStr n) (round_mean py x y z))"
  using assms by (simp add: record_average_def float_field_def subscript_def student_def)

lemma record_average_student_english:
  assumes "pyfloat py e = None"
  shows "record_average py (student r n e m s) = Inl (ValueError e)"
  using assms by (simp add: record_average_def float_field_def subscript_def student_def)

lemma example_floats:
  "pyfloat example_python ''90'' = Some 90" "pyfloat example_python ''80'' = Some 80"
  "pyfloat example_python ''70'' = Some 70" "pyfloat example_python ''60'' = Some 60"
  "pyfloat example_python ''abc'' = None"
  by (simp_all add: example_python_def)

lemma example_averages:
  "record_average example_python (student r n ''90'' ''80'' ''70'')
     = Inr (Derived (PStr r) (PStr n) (90, 80, 70))"
  "record_average example_python (student r n ''60'' ''70'' ''80'')
     = Inr (Derived (PStr r) (PStr n) (60, 70, 80))"
  "record_average example_python (student r n ''abc'' ''70'' ''80'') = Inl (ValueError ''abc'')"
  by (simp_all add: record_average_student record_average_student_english example_floats)
    (simp_all add: example_python_def)

text \<open>
  C2. For a non-empty list of stored records that all parse, some schedule of the threads
  lets the handler return, and whenever it returns the reply is the list of averages with
  exactly one element per stored record: as a multiset it is the derived records of the
  input, the multiset of its identifiers is that of the input, and it is free of repeated
  identifiers exactly when the input is.
\<close>

theorem averages_one_per_record:
  assumes "records \<noteq> []" and "\<forall>record \<in> set records. parses py record"
  shows "(\<exists>sched out. average_scores py cfg sched (Stored records) = Some out)
     \<and> (\<forall>sched out. average_scores py cfg sched (Stored records) = Some out \<longrightarrow>
          (\<exists>items. out = Inr (StudentAverages items)
             \<and> mset items = {#Rec (projr (record_average py record)). record \<in># mset records#}
             \<and> image_mset item_rollno (mset items)
                 = image_mset (\<lambda>record. record ''Rollno'') (mset records)
             \<and> (distinct (map item_rollno items)
                  \<longleftrightarrow> distinct (map (\<lambda>record. record ''Rollno'') records))))"
proof (intro conjI allI impI)
  note c = chunks_parse [OF assms(2), of 10]
  show "\<exists>sched out. average_scores py cfg sched (Stored records) = Some out"
    using returns_sequential [OF assms(1) c(1), of cfg] by blast
  fix sched out
  assume "average_scores py cfg sched (Stored records) = Some out"
  from returned_items [OF assms(1) c(1) this]
  obtain items where items: "mset items = mset (map (\<lambda>r. Rec (projr (record_average py r))) records)"
    and out: "out = Inr (if items = [] then Plain (Error 500 ''No results computed'')
                  else StudentAverages items)"
    unfolding c(2) by blast
  have "items \<noteq> []" using items assms(1) by auto
  then have o: "out = Inr (StudentAverages items)" using out by simp
  have m: "mset items = {#Rec (projr (record_average py record)). record \<in># mset records#}"
    using items by simp
  have eq: "map (\<lambda>r. item_rollno (Rec (projr (record_average py r)))) records
      = map (\<lambda>record. record ''Rollno'') records"
    using assms(2) by (intro map_cong refl rollno_parses) blast
  have "mset (map item_rollno items)
      = image_mset item_rollno (mset (map (\<lambda>r. Rec (projr (record_average py r))) records))"
    by (simp only: mset_map items)
  also have "\<dots> = mset (map (\<lambda>r. item_rollno (Rec (projr (record_average py r)))) records)"
    by (simp only: mset_map multiset.map_comp comp_def)
  also have "\<dots> = mset (map (\<lambda>record. record ''Rollno'') records)"
    by (simp only: eq)
  finally have ids: "mset (map item_rollno items) = mset (map (\<lambda>record. record ''Rollno'') records)" .
  then have i: "image_mset item_rollno (mset items)
      = image_mset (\<lambda>record. record ''Rollno'') (mset records)"
    by simp
  have d: "distinct (map item_rollno items) \<longleftrightarrow> distinct (map (\<lambda>record. record ''Rollno'') records)"
    using ids by (rule mset_eq_imp_distinct_iff)
  show "\<exists>items. out = Inr (StudentAverages items)
             \<and> mset items = {#Rec (projr (record_average py record)). record \<in># mset records#}
             \<and> image_mset item_rollno (mset items)
                 = image_mset (\<lambda>record. record ''Rollno'') (mset records)
             \<and> (distinct (map item_rollno items)
                  \<longleftrightarrow> distinct (map (\<lambda>record. record ''Rollno'') records))"
    using o m i d by blast
qed


lemma example_parses:
  "parses example_python (student r n ''90'' ''80'' ''70'')"
  "parses example_python (student r n ''60'' ''70'' ''80'')"
  by (simp_all add: parses_def example_averages)

lemma example_two_parsed:
  "average_scores example_python cfg (replicate 9 0 @ [0..<10])
     (Stored [student r ''Asha'' ''90'' ''80'' ''70'', student r' ''Bina'' ''60'' ''70'' ''80''])
   = Some (Inr (StudentAverages
       [Rec (Derived (PStr r) (PStr ''Asha'') (90, 80, 70)),
        Rec (Derived (PStr r') (PStr ''Bina'') (60, 70, 80))]))"
proof -
  let ?records = "[student r ''Asha'' ''90'' ''80'' ''70'', student r' ''Bina'' ''60'' ''70'' ''80'']"
  have p: "\<forall>record \<in> set ?records. parses example_python record"
    by (simp add: example_parses)
  note c = chunks_parse [OF p, of 10]
  have ne: "?records \<noteq> []" by simp
  have n: "replicate (4 * length (enqueue_chunks (chunk_size 10 ?records) ?records) + 1) (0::nat)
      = replicate 9 0"
    by (simp only: two_chunks) simp
  show ?thesis
    using returns_sequential [OF ne c(1), of cfg]
    unfolding c(2) n by (simp add: example_averages)
qed

theorem averages_one_per_record_witness:
  "[student ''1'' ''Asha'' ''90'' ''80'' ''70'', student ''2'' ''Bina'' ''60'' ''70'' ''80''] \<noteq> []
   \<and> parses example_python (student ''1'' ''Asha'' ''90'' ''80'' ''70'')
   \<and> parses example_python (student ''2'' ''Bina'' ''60'' ''70'' ''80'')
   \<and> average_scores example_python example_config (replicate 9 0 @ [0..<10])
         (Stored [student ''1'' ''Asha'' ''90'' ''80'' ''70'', student ''2'' ''Bina'' ''60'' ''70'' ''80''])
       = Some (Inr (StudentAverages
           [Rec (Derived (PStr ''1'') (PStr ''Asha'') (90, 80, 70)),
            Rec (Derived (PStr ''2'') (PStr ''Bina'') (60, 70, 80))]))
   \<and> image_mset item_rollno
         (mset [Rec (Derived (PStr ''1'') (PStr ''Asha'') (90 :: nat, 80 :: nat, 70 :: nat)),
                Rec (Derived (PStr ''2'') (PStr ''Bina'') (60, 70, 80))])
       = image_mset (\<lambda>record. record ''Rollno'')
           (mset [student ''1'' ''Asha'' ''90'' ''80'' ''70'', student ''2'' ''Bina'' ''60'' ''70'' ''80''])"
proof -
  let ?records = "[student ''1'' ''Asha'' ''90'' ''80'' ''70'', student ''2'' ''Bina'' ''60'' ''70'' ''80'']"
  let ?items = "[Rec (Derived (PStr ''1'') (PStr ''Asha'') (90 :: nat, 80 :: nat, 70 :: nat)),
                 Rec (Derived (PStr ''2'') (PStr ''Bina'') (60, 70, 80))]"
  have ne: "?records \<noteq> []" by simp
  have p: "\<forall>record \<in> set ?records. parses example_python record"
    by (simp add: example_parses)
  have r: "average_scores example_python example_config (replicate 9 0 @ [0..<10]) (Stored ?records)
       = Some (Inr (StudentAverages ?items))"
    by (rule example_two_parsed)
  from averages_one_per_record [OF ne p, of example_config] r
  obtain items where e: "Inr (StudentAverages ?items)
        = (Inr (StudentAverages items) :: pyexn + (nat \<times> nat \<times> nat) avg_reply)"
    and i: "image_mset item_rollno (mset items)
          = image_mset (\<lambda>record. record ''Rollno'') (mset ?records)"
    by blast
  from e have "items = ?items" by simp
  with i have "image_mset item_rollno (mset ?items)
          = image_mset (\<lambda>record. record ''Rollno'') (mset ?records)"
    by (simp only:)
  then show ?thesis using ne r by (intro conjI) (simp_all add: example_parses)
qed

text \<open>
  Two stored records with the same identifier, both parsing: the identifier appears twice
  in the reply.
\<close>

theorem duplicate_identifiers_counterexample:
  "average_scores example_python example_config (replicate 9 0 @ [0..<10])
     (Stored [student ''1'' ''Asha'' ''90'' ''80'' ''70'', student ''1'' ''Bina'' ''60'' ''70'' ''80''])
   = Some (Inr (StudentAverages
       [Rec (Derived (PStr ''1'') (PStr ''Asha'') (90, 80, 70)),
        Rec (Derived (PStr ''1'') (PStr ''Bina'') (60, 70, 80))]))
   \<and> \<not> distinct (map item_rollno
         [Rec (Derived (PStr ''1'') (PStr ''Asha'') (90 :: nat, 80 :: nat, 70 :: nat)),
          Rec (Derived (PStr ''1'') (PStr ''Bina'') (60, 70, 80))])"
  by (simp add: example_two_parsed)

lemma example_bad_chunk:
  "student_average example_python [student r n ''abc'' ''70'' ''80'']
     = Inr (ErrorText ''Error processing record {..}: abc'')"
  by (simp add: student_average_def example_averages) (simp add: example_python_def)

lemma example_good_chunk:
  "student_average example_python [student r n ''90'' ''80'' ''70'']
     = Inr (AverageList [Derived (PStr r) (PStr n) (90, 80, 70)])"
  by (simp add: student_average_def example_averages)

lemma example_one_unparsable:
  "list_all (no_uncaught example_python)
     (enqueue_chunks (chunk_size 10 [student r n ''90'' ''80'' ''70'', student r' n' ''abc'' ''70'' ''80''])
        [student r n ''90'' ''80'' ''70'', student r' n' ''abc'' ''70'' ''80''])"
  "concat (map (yield example_python)
     (enqueue_chunks (chunk_size 10 [student r n ''90'' ''80'' ''70'', student r' n' ''abc'' ''70'' ''80''])
        [student r n ''90'' ''80'' ''70'', student r' n' ''abc'' ''70'' ''80'']))
   = Rec (Derived (PStr r) (PStr n) (90, 80, 70)) # map Chr ''Error processing record {..}: abc''"
  unfolding two_chunks
  by (simp_all add: no_uncaught_def yield_def example_bad_chunk example_good_chunk extend_with_def)

text \<open>
  C1. Two stored records, the second with a non-numeric \<open>english\<close>. Whenever the handler
  returns, under any schedule, the reply is the list \<open>student_averages\<close>: it holds the
  average of the first record together with the characters of the error message, one
  element each.
\<close>

theorem error_text_merged_with_averages:
  assumes "average_scores example_python cfg sched
     (Stored [student ''1'' ''Asha'' ''90'' ''80'' ''70'', student ''2'' ''Bina'' ''abc'' ''70'' ''80''])
     = Some out"
  shows "\<exists>items. out = Inr (StudentAverages items)
     \<and> mset items = {#Rec (Derived (PStr ''1'') (PStr ''Asha'') (90, 80, 70))#}
         + mset (map Chr ''Error processing record {..}: abc'')"
proof -
  let ?records = "[student ''1'' ''Asha'' ''90'' ''80'' ''70'', student ''2'' ''Bina'' ''abc'' ''70'' ''80'']"
  have ne: "?records \<noteq> []" by simp
  from returned_items [OF ne example_one_unparsable(1) assms]
  obtain items where items: "mset items
      = mset (Rec (Derived (PStr ''1'') (PStr ''Asha'') (90, 80, 70)) # map Chr ''Error processing record {..}: abc'')"
    and out: "out = Inr (if items = [] then Plain (Error 500 ''No results computed'')
                  else StudentAverages items)"
    unfolding example_one_unparsable(2) by blast
  have "items \<noteq> []" using items by auto
  then have "out = Inr (StudentAverages items)" using out by simp
  moreover have "mset items = {#Rec (Derived (PStr ''1'') (PStr ''Asha'') (90, 80, 70))#}
         + mset (map Chr ''Error processing record {..}: abc'')"
    using items by (simp only: mset.simps) simp
  ultimately show ?thesis by blast
qed

theorem error_text_merged_with_averages_witness:
  "average_scores example_python example_config (replicate 9 0 @ [0..<10])
     (Stored [student ''1'' ''Asha'' ''90'' ''80'' ''70'', student ''2'' ''Bina'' ''abc'' ''70'' ''80''])
   = Some (Inr (StudentAverages
       (Rec (Derived (PStr ''1'') (PStr ''Asha'') (90, 80, 70))
        # map Chr ''Error processing record {..}: abc'')))
   \<and> (\<exists>items. (Inr (StudentAverages
          (Rec (Derived (PStr ''1'') (PStr ''Asha'') (90, 80, 70))
           # map Chr ''Error processing record {..}: abc'')) :: pyexn + (nat \<times> nat \<times> nat) avg_reply)
        = Inr (StudentAverages items)
      \<and> mset items = {#Rec (Derived (PStr ''1'') (PStr ''Asha'') (90, 80, 70))#}
         + mset (map Chr ''Error processing record {..}: abc''))"
proof -
  let ?records = "[student ''1'' ''Asha'' ''90'' ''80'' ''70'', student ''2'' ''Bina'' ''abc'' ''70'' ''80'']"
  have ne: "?records \<noteq> []" by simp
  have n: "replicate (4 * length (enqueue_chunks (chunk_size 10 ?records) ?records) + 1) (0::nat)
      = replicate 9 0"
    by (simp only: two_chunks) simp
  have r: "average_scores example_python example_config (replicate 9 0 @ [0..<10]) (Stored ?records)
     = Some (Inr (StudentAverages
         (Rec (Derived (PStr ''1'') (PStr ''Asha'') (90, 80, 70))
          # map Chr ''Error processing record {..}: abc'')))"
    using returns_sequential [OF ne example_one_unparsable(1), of example_config]
    unfolding example_one_unparsable(2) n by simp
  show ?thesis
    using r error_text_merged_with_averages [OF r] by (intro conjI)
qed

text \<open>For a non-empty list the handler is the aggregation followed by the test of its result.\<close>

lemma average_scores_compute_averages:
  "records \<noteq> [] \<Longrightarrow>
     average_scores py cfg sched (Stored records) =
       (case compute_averages py cfg sched records of
          None \<Rightarrow> None
        | Some rs \<Rightarrow>
            Some (Inr (if rs = [] then Plain (Error 500 ''No results computed'')
                       else StudentAverages rs)))"
  by (simp add: average_scores_def compute_averages_def read_csv_def Let_def)





text \<open>
  The handler itself never reaches the aggregation with an empty list: it replies 404
  "No records found", whatever the configuration and the schedule.
\<close>

lemma empty_store_not_found:
  "average_scores py cfg sched (Stored []) = Some (Inr (Plain (Error 404 ''No records found'')))"
  by (simp add: average_scores_def read_csv_def)

text \<open>
  C6. With \<open>thread_size = 5\<close> configured, the module-level \<open>num_threads\<close> is 5, yet the
  handler starts 10 threads and cuts 20 records into 10 chunks of 2; the pool it starts does
  not depend on the configuration at all.
\<close>

theorem configured_thread_size_ignored:
  "num_threads example_config = 5
   \<and> length (threads (start_pool example_config (replicate 20 Map.empty))) = 10
   \<and> map length (queue (start_pool example_config (replicate 20 Map.empty))) = replicate 10 2
   \<and> start_pool cfg records = start_pool cfg' records"
proof -
  have "chunk_size 10 (replicate 20 (Map.empty :: pydict)) = 2"
    by (simp add: chunk_size_def)
  then have "map length (queue (start_pool example_config (replicate 20 Map.empty)))
      = map (\<lambda>k. 2) [0..<10]"
    by (simp add: start_pool_simps enqueue_chunks_eq slice_def comp_def)
  then have "map length (queue (start_pool example_config (replicate 20 Map.empty))) = replicate 10 2"
    by (simp add: map_replicate_const)
  then show ?thesis
    by (simp add: num_threads_def example_config_def start_pool_simps start_pool_def)
qed

end
